theory Spec2Isabelle
  imports Main
begin

unbundle bit_operations_syntax

section \<open>The quantizer and the nibble packer of png-to-128x64.py\<close>

text \<open>
  Python integers are unbounded, so intensities and bytes are \<^typ>\<open>int\<close>.
  \<^verbatim>\<open>def process_pixel(pixel_value): return pixel_value // 16\<close>
  Python's \<^verbatim>\<open>//\<close> rounds towards minus infinity, as \<open>div\<close> on \<^typ>\<open>int\<close> does.
\<close>

definition process_pixel :: "int \<Rightarrow> int" where
  "process_pixel pixel_value = pixel_value div 16"

text \<open>
  Line 42: \<^verbatim>\<open>combined_byte = (first_pixel << 4) | second_pixel\<close>.
\<close>

definition combined_byte :: "int \<Rightarrow> int \<Rightarrow> int" where
  "combined_byte first_pixel second_pixel = push_bit 4 first_pixel OR second_pixel"

text \<open>
  Division that truncates towards zero, to compare \<open>process_pixel\<close> with.
\<close>

definition trunc_div :: "int \<Rightarrow> int \<Rightarrow> int" where
  "trunc_div a b =
     (if (a < 0) = (b < 0) then \<bar>a\<bar> div \<bar>b\<bar> else - (\<bar>a\<bar> div \<bar>b\<bar>))"

section \<open>Pillow images\<close>

text \<open>
  The script works on images of the Pillow library (\<^verbatim>\<open>from PIL import Image\<close>), which
  is not part of the repository. An image has a mode (\<^verbatim>\<open>img.mode\<close>, a string such as
  \<^verbatim>\<open>'L'\<close>, \<^verbatim>\<open>'LA'\<close>, \<^verbatim>\<open>'P'\<close>, \<^verbatim>\<open>'RGB'\<close>, \<^verbatim>\<open>'RGBA'\<close>), a size
  (\<^verbatim>\<open>img.size\<close>, width first) and, at every position, the list of its band values.
\<close>

record pil_image =
  mode :: string
  size_xy :: "nat \<times> nat"
  pixel_at :: "nat \<times> nat \<Rightarrow> int list"

text \<open>Every exception the script can meet propagates as a value.\<close>

datatype exn =
  FileNotFoundError | UnidentifiedImageError | OSError | IndexError | TypeError | ValueError

text \<open>
  \<^verbatim>\<open>img.getpixel((x, y))\<close> returns an integer for a single-band image and a tuple
  otherwise, and raises IndexError outside the image.
\<close>

datatype pixel_value = PyInt int | PyTuple "int list"

definition getpixel :: "pil_image \<Rightarrow> nat \<times> nat \<Rightarrow> exn + pixel_value" where
  "getpixel img xy =
     (if fst xy < fst (size_xy img) \<and> snd xy < snd (size_xy img)
      then Inr (case pixel_at img xy of [v] \<Rightarrow> PyInt v | bands \<Rightarrow> PyTuple bands)
      else Inl IndexError)"

text \<open>
  The operations whose result depends on the decoder, on the colour conversion tables and
  on the resampling filter are parameters of the model: \<^verbatim>\<open>Image.open(path)\<close>,
  \<^verbatim>\<open>img.convert(mode)\<close> and \<^verbatim>\<open>img.resize(size)\<close>. Each of them can raise: the
  decoder on a file that is not an image, \<open>convert\<close> on a mode it has no conversion
  for or on a file whose data cannot be loaded, \<open>resize\<close> on a size it refuses.
\<close>

record pil =
  Image_open :: "string \<Rightarrow> exn + pil_image"
  convert :: "pil_image \<Rightarrow> string \<Rightarrow> exn + pil_image"
  resize :: "pil_image \<Rightarrow> nat \<times> nat \<Rightarrow> exn + pil_image"

text \<open>\<^verbatim>\<open>Image.new(mode, size, color)\<close>: an image filled with one colour.\<close>

definition Image_new :: "string \<Rightarrow> nat \<times> nat \<Rightarrow> int list \<Rightarrow> pil_image" where
  "Image_new m sz color = \<lparr>mode = m, size_xy = sz, pixel_at = (\<lambda>_. color)\<rparr>"

text \<open>
  Modelled from the spec: \<^verbatim>\<open>Image.alpha_composite\<close> belongs to Pillow and is not in
  src/. The spec gives the compositing rule per colour channel,
  \<^verbatim>\<open>out = src*alpha + background*(1-alpha)\<close>; with 8-bit channels the weight \<open>alpha\<close> is
  \<open>a / 255\<close>. The alpha of the result is that of the "over" operator,
  \<open>a + background_alpha * (1 - alpha)\<close>. Pillow raises ValueError unless both images are
  RGBA and of the same size.
\<close>

definition blend :: "int \<Rightarrow> int \<Rightarrow> int \<Rightarrow> int" where
  "blend src a background = (src * a + background * (255 - a)) div 255"

fun over :: "int list \<Rightarrow> int list \<Rightarrow> int list" where
  "over [br, bg, bb, ba] [sr, sg, sb, sa] =
     [blend sr sa br, blend sg sa bg, blend sb sa bb, sa + ba * (255 - sa) div 255]"
| "over dst src = dst"

definition Image_alpha_composite :: "pil_image \<Rightarrow> pil_image \<Rightarrow> exn + pil_image" where
  "Image_alpha_composite im1 im2 =
     (if mode im1 \<noteq> ''RGBA'' \<or> mode im2 \<noteq> ''RGBA'' \<or> size_xy im1 \<noteq> size_xy im2
      then Inl ValueError
      else Inr \<lparr>mode = ''RGBA'', size_xy = size_xy im1,
                pixel_at = (\<lambda>xy. over (pixel_at im1 xy) (pixel_at im2 xy))\<rparr>)"

section \<open>The conversion function\<close>

text \<open>
  Lines 13 to 19 of \<^verbatim>\<open>convert_image_to_4bit_grayscale\<close>:
  \<^verbatim>\<open>
  if img.mode == 'P' or img.mode == 'RGBA':
      img = img.convert('RGBA')
      background = Image.new('RGBA', img.size, (255, 255, 255, 255))
      img = Image.alpha_composite(background, img)
  \<close>
\<close>

definition handle_transparency :: "pil \<Rightarrow> pil_image \<Rightarrow> exn + pil_image" where
  "handle_transparency P img =
     (if mode img = ''P'' \<or> mode img = ''RGBA''
      then (case convert P img ''RGBA'' of Inl e \<Rightarrow> Inl e
            | Inr img1 \<Rightarrow>
                (let background = Image_new ''RGBA'' (size_xy img1) [255, 255, 255, 255]
                 in Image_alpha_composite background img1))
      else Inr img)"

text \<open>\<^verbatim>\<open>range(start, stop, step)\<close> for a positive step.\<close>

definition py_range :: "nat \<Rightarrow> nat \<Rightarrow> nat \<Rightarrow> nat list" where
  "py_range start stop step =
     map (\<lambda>i. start + i * step) [0..<(stop - start + step - 1) div step]"

text \<open>
  \<open>process_pixel\<close> applied to what \<open>getpixel\<close> returned: \<^verbatim>\<open>//\<close> on a tuple raises
  TypeError.
\<close>

definition process_pixel_value :: "pixel_value \<Rightarrow> exn + int" where
  "process_pixel_value pv =
     (case pv of PyInt pixel_value \<Rightarrow> Inr (process_pixel pixel_value)
      | PyTuple _ \<Rightarrow> Inl TypeError)"

text \<open>
  The body of the inner loop (lines 32 to 45), run over the remaining values of \<open>x\<close>,
  with the list \<open>bitmap_data\<close> threaded through.
\<close>

fun inner_loop :: "pil_image \<Rightarrow> nat \<Rightarrow> nat list \<Rightarrow> int list \<Rightarrow> exn + int list" where
  "inner_loop img y [] bitmap_data = Inr bitmap_data"
| "inner_loop img y (x # xs) bitmap_data =
     (case getpixel img (x, y) of Inl e \<Rightarrow> Inl e
      | Inr pixel_value1 \<Rightarrow>
     (case process_pixel_value pixel_value1 of Inl e \<Rightarrow> Inl e
      | Inr first_pixel \<Rightarrow>
     (case getpixel img (x + 1, y) of Inl e \<Rightarrow> Inl e
      | Inr pixel_value2 \<Rightarrow>
     (case process_pixel_value pixel_value2 of Inl e \<Rightarrow> Inl e
      | Inr second_pixel \<Rightarrow>
         inner_loop img y xs (bitmap_data @ [combined_byte first_pixel second_pixel])))))"

text \<open>The outer loop (line 31), over the remaining values of \<open>y\<close>.\<close>

fun outer_loop :: "pil_image \<Rightarrow> nat list \<Rightarrow> int list \<Rightarrow> exn + int list" where
  "outer_loop img [] bitmap_data = Inr bitmap_data"
| "outer_loop img (y # ys) bitmap_data =
     (case inner_loop img y (py_range 0 128 2) bitmap_data of Inl e \<Rightarrow> Inl e
      | Inr bitmap_data' \<Rightarrow> outer_loop img ys bitmap_data')"

text \<open>Lines 28 to 45: the packing of the resized image.\<close>

definition pack :: "pil_image \<Rightarrow> exn + int list" where
  "pack img = outer_loop img (py_range 0 64 1) []"

text \<open>Lines 11 to 45: from the path of the source image to \<open>bitmap_data\<close>.\<close>

definition load_bitmap :: "pil \<Rightarrow> string \<Rightarrow> exn + int list" where
  "load_bitmap P image_path =
     (case Image_open P image_path of Inl e \<Rightarrow> Inl e
      | Inr img \<Rightarrow>
     (case handle_transparency P img of Inl e \<Rightarrow> Inl e
      | Inr img1 \<Rightarrow>
     (case convert P img1 ''L'' of Inl e \<Rightarrow> Inl e
      | Inr img2 \<Rightarrow>
     (case resize P img2 (128, 64) of Inl e \<Rightarrow> Inl e
      | Inr img3 \<Rightarrow> pack img3))))"

section \<open>Writing the file\<close>

text \<open>
  Modelled from the spec: \<^verbatim>\<open>os.path.splitext\<close> belongs to the Python standard library
  and is not in src/. The spec says that the extension is stripped; the model is the POSIX
  \<open>splitext\<close>: the extension starts at the last dot of the last path component, unless
  that component has only dots before it.
\<close>

definition rfind :: "string \<Rightarrow> char \<Rightarrow> int" where
  "rfind p c =
     (if c \<in> set p
      then int (length p) - 1 - int (length (takeWhile (\<lambda>d. d \<noteq> c) (rev p)))
      else - 1)"

function skip_dots :: "string \<Rightarrow> nat \<Rightarrow> nat \<Rightarrow> bool" where
  "skip_dots p filenameIndex dotIndex =
     (if filenameIndex < dotIndex
      then (if p ! filenameIndex \<noteq> CHR ''.'' then True
            else skip_dots p (filenameIndex + 1) dotIndex)
      else False)"
  by pat_completeness auto
termination
  by (relation "measure (\<lambda>(p, filenameIndex, dotIndex). dotIndex - filenameIndex)") auto

definition splitext :: "string \<Rightarrow> string \<times> string" where
  "splitext p =
     (let sepIndex = rfind p CHR ''/'';
          dotIndex = rfind p CHR ''.''
      in if dotIndex > sepIndex \<and> skip_dots p (nat (sepIndex + 1)) (nat dotIndex)
         then (take (nat dotIndex) p, drop (nat dotIndex) p)
         else (p, []))"

text \<open>\<^verbatim>\<open>str(n)\<close> for the length printed in the error message.\<close>

fun str_nat :: "nat \<Rightarrow> string" where
  "str_nat n =
     (if n < 10 then [''0123456789'' ! n]
      else str_nat (n div 10) @ [''0123456789'' ! (n mod 10)])"

text \<open>
  \<^verbatim>\<open>bytearray(bitmap_data)\<close> raises ValueError unless every element is in
  \<^verbatim>\<open>range(0, 256)\<close>.
\<close>

definition bytearray :: "int list \<Rightarrow> exn + int list" where
  "bytearray xs = (if list_all (\<lambda>b. 0 \<le> b \<and> b < 256) xs then Inr xs else Inl ValueError)"

text \<open>
  What the function can change: the files (a path has a content or none), the lines
  printed, and which paths \<^verbatim>\<open>open(path, 'wb')\<close> can create.
\<close>

record world =
  files :: "string \<rightharpoonup> int list"
  stdout :: "string list"
  creatable :: "string \<Rightarrow> bool"

text \<open>
  Lines 47 to 61, as a function of \<open>bitmap_data\<close>. \<^verbatim>\<open>open(output_path, 'wb')\<close> creates or
  empties the file before \<^verbatim>\<open>bytearray(bitmap_data)\<close> is evaluated.
\<close>

definition save_bitmap ::
  "int list \<Rightarrow> string \<Rightarrow> string option \<Rightarrow> world \<Rightarrow> (exn + unit) \<times> world" where
  "save_bitmap bitmap_data image_path output_path w =
     (if int (length bitmap_data) \<noteq> 128 * 64 div 2
      then (Inr (), w\<lparr>stdout := stdout w @
              [''Error: Expected 4096 bytes, got '' @ str_nat (length bitmap_data) @ '' bytes.'']\<rparr>)
      else
        (let output_path' =
               (case output_path of
                  None \<Rightarrow> (let base_name = fst (splitext image_path) in base_name @ ''-4bit.bin'')
                | Some p \<Rightarrow> p)
         in if \<not> creatable w output_path' then (Inl OSError, w)
            else
              (let w1 = w\<lparr>files := (files w)(output_path' \<mapsto> [])\<rparr>
               in case bytearray bitmap_data of
                    Inl e \<Rightarrow> (Inl e, w1)
                  | Inr bs \<Rightarrow>
                      (Inr (), w1\<lparr>files := (files w1)(output_path' \<mapsto> bs),
                                  stdout := stdout w1 @
                                    [''Image successfully converted and saved to '' @ output_path']\<rparr>))))"

text \<open>
  The whole of \<^verbatim>\<open>convert_image_to_4bit_grayscale(image_path, output_path=None)\<close>: an
  exception leaves the function with the world as it was when it was raised.
\<close>

definition convert_image_to_4bit_grayscale ::
  "pil \<Rightarrow> string \<Rightarrow> string option \<Rightarrow> world \<Rightarrow> (exn + unit) \<times> world" where
  "convert_image_to_4bit_grayscale P image_path output_path w =
     (case load_bitmap P image_path of
        Inl e \<Rightarrow> (Inl e, w)
      | Inr bitmap_data \<Rightarrow> save_bitmap bitmap_data image_path output_path w)"

section \<open>Well-formed images\<close>

text \<open>
  An image of mode \<^verbatim>\<open>'L'\<close> has one 8-bit band, an image of mode \<^verbatim>\<open>'RGBA'\<close> has four.
\<close>

definition is_L_image :: "pil_image \<Rightarrow> bool" where
  "is_L_image img =
     (mode img = ''L'' \<and>
      (\<forall>x<fst (size_xy img). \<forall>y<snd (size_xy img).
         case pixel_at img (x, y) of [v] \<Rightarrow> 0 \<le> v \<and> v \<le> 255 | _ \<Rightarrow> False))"

definition is_RGBA_image :: "pil_image \<Rightarrow> bool" where
  "is_RGBA_image img =
     (mode img = ''RGBA'' \<and>
      (\<forall>x<fst (size_xy img). \<forall>y<snd (size_xy img).
         case pixel_at img (x, y) of
           [r, g, b, a] \<Rightarrow> list_all (\<lambda>v. 0 \<le> v \<and> v \<le> 255) [r, g, b, a]
         | _ \<Rightarrow> False))"

text \<open>The intensity of a pixel of a single-band image.\<close>

definition intensity :: "pil_image \<Rightarrow> nat \<Rightarrow> nat \<Rightarrow> int" where
  "intensity img x y = (case pixel_at img (x, y) of [v] \<Rightarrow> v | _ \<Rightarrow> 0)"

text \<open>The byte that the loop body appends for the pixels \<open>(x, y)\<close> and \<open>(x + 1, y)\<close>.\<close>

definition byte_of :: "pil_image \<Rightarrow> nat \<Rightarrow> nat \<Rightarrow> int" where
  "byte_of img y x =
     combined_byte (process_pixel (intensity img x y)) (process_pixel (intensity img (x + 1) y))"

text \<open>
  What the properties below assume of Pillow. When \<^verbatim>\<open>convert('L')\<close> or
  \<^verbatim>\<open>convert('RGBA')\<close> returns, the result is a well-formed image of that mode and of the
  same size; nothing is assumed about when they return. \<^verbatim>\<open>resize(size)\<close> of a non-empty
  image of mode \<^verbatim>\<open>'L'\<close> to a non-empty size returns a well-formed image of mode
  \<^verbatim>\<open>'L'\<close> and of the size asked for.
\<close>

definition pil_contract :: "pil \<Rightarrow> bool" where
  "pil_contract P =
     ((\<forall>img img'. convert P img ''L'' = Inr img' \<longrightarrow>
             is_L_image img' \<and> size_xy img' = size_xy img) \<and>
      (\<forall>img img'. convert P img ''RGBA'' = Inr img' \<longrightarrow>
             is_RGBA_image img' \<and> size_xy img' = size_xy img) \<and>
      (\<forall>img sz. is_L_image img \<and> 1 \<le> fst (size_xy img) \<and> 1 \<le> snd (size_xy img) \<and>
             1 \<le> fst sz \<and> 1 \<le> snd sz \<longrightarrow>
             (\<exists>img'. resize P img sz = Inr img' \<and> is_L_image img' \<and> size_xy img' = sz)))"

text \<open>
  The alpha of a pixel, in the modes that have an alpha band (it is the last band). The
  transparency of a \<^verbatim>\<open>'P'\<close> image lies in its palette, which only \<open>convert\<close> reads.
\<close>

definition alpha_of :: "string \<Rightarrow> int list \<Rightarrow> int option" where
  "alpha_of m bands =
     (if m \<in> set [''LA'', ''La'', ''PA'', ''RGBA'', ''RGBa''] \<and> bands \<noteq> []
      then Some (last bands) else None)"

text \<open>An image has no transparency when every alpha it has is 255.\<close>

definition no_transparency :: "pil_image \<Rightarrow> bool" where
  "no_transparency img =
     (\<forall>x<fst (size_xy img). \<forall>y<snd (size_xy img).
        case alpha_of (mode img) (pixel_at img (x, y)) of None \<Rightarrow> True | Some a \<Rightarrow> a = 255)"

section \<open>Example inputs\<close>

text \<open>A 128x64 image of mode \<^verbatim>\<open>'L'\<close>, a 1x1 image with a transparent pixel in each of
  the modes \<^verbatim>\<open>'RGBA'\<close> and \<^verbatim>\<open>'LA'\<close>, a 1x1 image of mode \<^verbatim>\<open>'LAB'\<close>, and a world
  with no file.\<close>

definition gradient_image :: pil_image where
  "gradient_image =
     \<lparr>mode = ''L'', size_xy = (128, 64), pixel_at = (\<lambda>(x, y). [int (x + 2 * y + 1)])\<rparr>"

definition rgba_pixel_image :: pil_image where
  "rgba_pixel_image = \<lparr>mode = ''RGBA'', size_xy = (1, 1), pixel_at = (\<lambda>_. [10, 20, 30, 0])\<rparr>"

definition la_pixel_image :: pil_image where
  "la_pixel_image = \<lparr>mode = ''LA'', size_xy = (1, 1), pixel_at = (\<lambda>_. [0, 0])\<rparr>"

definition lab_pixel_image :: pil_image where
  "lab_pixel_image = \<lparr>mode = ''LAB'', size_xy = (1, 1), pixel_at = (\<lambda>_. [128, 128, 128])\<rparr>"

text \<open>What the 1x1 RGBA image becomes over white, and then in mode \<^verbatim>\<open>'L'\<close>.\<close>

definition white_pixel_image :: pil_image where
  "white_pixel_image =
     \<lparr>mode = ''RGBA'', size_xy = (1, 1), pixel_at = (\<lambda>_. [255, 255, 255, 255])\<rparr>"

definition white_gray_image :: pil_image where
  "white_gray_image = \<lparr>mode = ''L'', size_xy = (1, 1), pixel_at = (\<lambda>_. [255])\<rparr>"

definition empty_world :: world where
  "empty_world = \<lparr>files = Map.empty, stdout = [], creatable = (\<lambda>_. True)\<rparr>"

text \<open>
  An instance of the library for the examples: \<open>Image_open\<close> is given, \<open>convert\<close> uses
  the ITU-R 601-2 luma weights and \<open>resize\<close> takes the nearest pixel. As in Pillow,
  there is no conversion from mode \<^verbatim>\<open>'LAB'\<close> to \<^verbatim>\<open>'L'\<close> or to \<^verbatim>\<open>'RGBA'\<close>
  (\<open>convert\<close> raises ValueError), and \<open>resize\<close> refuses an empty size.
\<close>

definition clamp8 :: "int \<Rightarrow> int" where
  "clamp8 v = max 0 (min 255 v)"

fun luma :: "int list \<Rightarrow> int" where
  "luma [v] = v"
| "luma [v, a] = v"
| "luma [r, g, b] = (r * 299 + g * 587 + b * 114) div 1000"
| "luma [r, g, b, a] = (r * 299 + g * 587 + b * 114) div 1000"
| "luma bands = 0"

fun to_rgba :: "int list \<Rightarrow> int list" where
  "to_rgba [v] = [v, v, v, 255]"
| "to_rgba [v, a] = [v, v, v, a]"
| "to_rgba [r, g, b] = [r, g, b, 255]"
| "to_rgba [r, g, b, a] = [r, g, b, a]"
| "to_rgba bands = [0, 0, 0, 255]"

definition example_pil :: "(string \<Rightarrow> exn + pil_image) \<Rightarrow> pil" where
  "example_pil decode =
     \<lparr>Image_open = decode,
      convert = (\<lambda>img m.
        if mode img = ''LAB'' then Inl ValueError
        else if m = ''L''
        then Inr \<lparr>mode = ''L'', size_xy = size_xy img,
                  pixel_at = (\<lambda>xy. [clamp8 (luma (pixel_at img xy))])\<rparr>
        else Inr \<lparr>mode = ''RGBA'', size_xy = size_xy img,
                  pixel_at = (\<lambda>xy. map clamp8 (to_rgba (pixel_at img xy)))\<rparr>),
      resize = (\<lambda>img sz.
        if fst sz = 0 \<or> snd sz = 0 then Inl ValueError
        else Inr \<lparr>mode = mode img, size_xy = sz,
                  pixel_at = (\<lambda>(x, y). pixel_at img (x * fst (size_xy img) div fst sz,
                                                       y * snd (size_xy img) div snd sz))\<rparr>)\<rparr>"

definition example_files :: "string \<Rightarrow> exn + pil_image" where
  "example_files path =
     (if path = ''photo.png'' then Inr rgba_pixel_image
      else if path = ''lab.tif'' then Inr lab_pixel_image
      else Inl UnidentifiedImageError)"

section \<open>Properties\<close>

subsection \<open>The quantizer and the packed byte\<close>

lemma combined_byte_arith:
  assumes "0 \<le> b" "b \<le> 15"
  shows "combined_byte a b = a * 16 + b"
proof -
  have tb: "take_bit 4 b = b"
    using assms by (simp add: take_bit_int_eq_self)
  have "push_bit 4 a AND take_bit 4 b = 0"
    by (rule bit_eqI) (auto simp: bit_simps)
  then have "push_bit 4 a OR take_bit 4 b = push_bit 4 a + take_bit 4 b"
    by (simp add: disjunctive_add_eq_or)
  then show ?thesis
    by (simp add: combined_byte_def tb push_bit_eq_mult)
qed

lemma nibbles_of_combined_byte:
  assumes "0 \<le> a" "0 \<le> b" "b \<le> 15"
  shows "drop_bit 4 (combined_byte a b) = a" and "combined_byte a b AND 15 = b"
proof -
  have eq: "combined_byte a b = a * 16 + b"
    using assms by (simp add: combined_byte_arith)
  show "drop_bit 4 (combined_byte a b) = a"
    using assms by (simp add: eq drop_bit_eq_div)
  have "(a * 16 + b) AND mask 4 = b"
    using assms by (simp add: take_bit_eq_mod flip: take_bit_eq_mask)
  then show "combined_byte a b AND 15 = b"
    by (simp add: eq mask_eq_exp_minus_1)
qed

text \<open>
  Claim C3. On the intensities 0 to 255 the quantizer \<open>process_pixel\<close> is the division
  by 16, which there is also the division that truncates towards zero; it is monotonic;
  and it maps the intensities 0 to 255 onto the values 0 to 15.
\<close>

theorem process_pixel_truncating_monotonic_onto:
  assumes "0 \<le> v" "v \<le> 255" "0 \<le> v1" "v1 \<le> v2" "v2 \<le> 255"
  shows "process_pixel v = v div 16 \<and> process_pixel v = trunc_div v 16 \<and>
         process_pixel v1 \<le> process_pixel v2 \<and>
         process_pixel ` {0..255} = {0..15}"
proof -
  have trunc: "process_pixel v = trunc_div v 16"
    using assms(1) by (cases "v = 0") (simp_all add: process_pixel_def trunc_div_def)
  have mono: "process_pixel v1 \<le> process_pixel v2"
    using assms(4) by (simp add: process_pixel_def zdiv_mono1)
  have onto: "process_pixel ` {0..255} = {0..15}"
  proof (rule set_eqI)
    fix q :: int
    show "q \<in> process_pixel ` {0..255} \<longleftrightarrow> q \<in> {0..15}"
    proof
      assume "q \<in> process_pixel ` {0..255}"
      then obtain u where "0 \<le> u" "u \<le> 255" "q = u div 16"
        by (auto simp: process_pixel_def)
      then show "q \<in> {0..15}" by (simp add: pos_imp_zdiv_nonneg_iff)
    next
      assume "q \<in> {0..15}"
      then have "16 * q \<in> {0..255}" "process_pixel (16 * q) = q"
        by (simp_all add: process_pixel_def)
      then show "q \<in> process_pixel ` {0..255}" by (metis imageI)
    qed
  qed
  from trunc mono onto show ?thesis
    by (simp add: process_pixel_def)
qed

theorem process_pixel_truncating_monotonic_onto_witness:
  "(0::int) \<le> 200 \<and> (200::int) \<le> 255 \<and> (0::int) \<le> 31 \<and> (31::int) \<le> 32 \<and> (32::int) \<le> 255 \<and>
   process_pixel 200 = 200 div 16 \<and> process_pixel 200 = trunc_div 200 16 \<and>
   process_pixel 31 \<le> process_pixel 32 \<and> process_pixel ` {0..255} = {0..15}"
  using process_pixel_truncating_monotonic_onto [of 200 31 32] by simp

text \<open>
  Claim C4. For two values \<open>a\<close> and \<open>b\<close> between 0 and 15, the byte
  \<^verbatim>\<open>(a << 4) | b\<close> of line 42 has \<open>a\<close> as its high nibble and \<open>b\<close> as its low nibble.
\<close>

theorem nibble_packing_round_trip:
  assumes "0 \<le> a" "a \<le> 15" "0 \<le> b" "b \<le> 15"
  shows "drop_bit 4 (combined_byte a b) = a \<and> combined_byte a b AND 15 = b"
  using assms by (simp add: nibbles_of_combined_byte)

theorem nibble_packing_round_trip_witness:
  "(0::int) \<le> 10 \<and> (10::int) \<le> 15 \<and> (0::int) \<le> 7 \<and> (7::int) \<le> 15 \<and>
   drop_bit 4 (combined_byte 10 7) = 10 \<and> combined_byte 10 7 AND 15 = 7 \<and> combined_byte 10 7 = 167"
  using nibble_packing_round_trip [of 10 7] by (simp add: combined_byte_arith)

subsection \<open>The packing loops\<close>

lemma py_range_pairs: "py_range 0 128 2 = map (\<lambda>i. 2 * i) [0..<64]"
  by (simp add: py_range_def mult.commute)

lemma py_range_rows: "py_range 0 64 1 = [0..<64]"
  by (simp add: py_range_def map_idI)

lemma getpixel_L:
  assumes "is_L_image img" "x < fst (size_xy img)" "y < snd (size_xy img)"
  shows "getpixel img (x, y) = Inr (PyInt (intensity img x y))"
    and "0 \<le> intensity img x y" and "intensity img x y \<le> 255"
proof -
  from assms have "case pixel_at img (x, y) of [v] \<Rightarrow> 0 \<le> v \<and> v \<le> 255 | _ \<Rightarrow> False"
    by (simp add: is_L_image_def)
  then obtain v where v: "pixel_at img (x, y) = [v]" "0 \<le> v" "v \<le> 255"
    by (auto split: list.splits)
  from v assms(2,3) show "getpixel img (x, y) = Inr (PyInt (intensity img x y))"
    by (simp add: getpixel_def intensity_def)
  from v show "0 \<le> intensity img x y" and "intensity img x y \<le> 255"
    by (simp_all add: intensity_def)
qed

lemma inner_loop_append:
  assumes "\<forall>x\<in>set xs. getpixel img (x, y) = Inr (PyInt (intensity img x y)) \<and>
             getpixel img (x + 1, y) = Inr (PyInt (intensity img (x + 1) y))"
  shows "inner_loop img y xs bitmap_data = Inr (bitmap_data @ map (byte_of img y) xs)"
  using assms
  by (induction xs arbitrary: bitmap_data)
     (simp_all add: process_pixel_value_def byte_of_def)

lemma outer_loop_append:
  assumes "\<forall>y\<in>set ys. \<forall>x\<in>set (py_range 0 128 2).
             getpixel img (x, y) = Inr (PyInt (intensity img x y)) \<and>
             getpixel img (x + 1, y) = Inr (PyInt (intensity img (x + 1) y))"
  shows "outer_loop img ys bitmap_data =
           Inr (bitmap_data @ concat (map (\<lambda>y. map (byte_of img y) (py_range 0 128 2)) ys))"
  using assms
  by (induction ys arbitrary: bitmap_data) (simp_all add: inner_loop_append)

lemma inner_loop_length:
  "inner_loop img y xs bitmap_data = Inr bd \<Longrightarrow> length bd = length bitmap_data + length xs"
  by (induction xs arbitrary: bitmap_data) (auto split: sum.splits)

lemma outer_loop_length:
  "outer_loop img ys bitmap_data = Inr bd \<Longrightarrow> length bd = length bitmap_data + 64 * length ys"
  by (induction ys arbitrary: bitmap_data)
     (auto split: sum.splits dest!: inner_loop_length simp: py_range_pairs)

lemma concat_rows_nth:
  assumes "i < length ys" "j < length xs"
  shows "concat (map (\<lambda>y. map (f y) xs) ys) ! (i * length xs + j) = f (ys ! i) (xs ! j)"
  using assms
proof (induction ys arbitrary: i)
  case Nil
  then show ?case by simp
next
  case (Cons y ys)
  show ?case
  proof (cases i)
    case 0
    with Cons.prems show ?thesis by (simp add: nth_append)
  next
    case (Suc k)
    with Cons.prems have "k < length ys" by simp
    from Cons.IH [OF this Cons.prems(2)] Suc show ?thesis
      by (simp add: nth_append)
  qed
qed

lemma pack_rows:
  assumes "is_L_image img" "size_xy img = (128, 64)"
  shows "pack img = Inr (concat (map (\<lambda>y. map (byte_of img y) (map (\<lambda>i. 2 * i) [0..<64])) [0..<64]))"
proof -
  have "\<forall>y\<in>set [0..<64]. \<forall>x\<in>set (py_range 0 128 2).
             getpixel img (x, y) = Inr (PyInt (intensity img x y)) \<and>
             getpixel img (x + 1, y) = Inr (PyInt (intensity img (x + 1) y))"
    using assms by (auto simp: py_range_pairs intro!: getpixel_L(1))
  from outer_loop_append [OF this, of "[]"] show ?thesis
    unfolding pack_def py_range_rows py_range_pairs by simp
qed

text \<open>Whatever the image, a buffer that the loops return has 4096 bytes.\<close>

lemma pack_length: "pack img = Inr bitmap_data \<Longrightarrow> length bitmap_data = 4096"
  unfolding pack_def py_range_rows by (drule outer_loop_length) simp

lemma pack_nth:
  assumes "is_L_image img" "size_xy img = (128, 64)" "y < 64" "x < 128" "even x"
  shows "\<exists>bd. pack img = Inr bd \<and> length bd = 4096 \<and> bd ! (y * 64 + x div 2) = byte_of img y x"
proof -
  let ?xs = "map (\<lambda>i. 2 * i) [0..<64::nat]"
  have "x div 2 < 64" using assms by simp
  from concat_rows_nth [of y "[0..<64]" "x div 2" ?xs "byte_of img"] assms this
  have "concat (map (\<lambda>y. map (byte_of img y) ?xs) [0..<64]) ! (y * 64 + x div 2) = byte_of img y x"
    by simp
  moreover have "length (concat (map (\<lambda>y. map (byte_of img y) ?xs) [0..<64])) = 4096"
    by (simp add: length_concat comp_def sum_list_triv)
  ultimately show ?thesis
    using pack_rows [OF assms(1,2)] by simp
qed

lemma process_pixel_nibble:
  assumes "0 \<le> v" "v \<le> 255"
  shows "0 \<le> process_pixel v" and "process_pixel v \<le> 15"
  using assms by (simp_all add: process_pixel_def pos_imp_zdiv_nonneg_iff)

lemma combined_byte_range:
  assumes "0 \<le> v1" "v1 \<le> 255" "0 \<le> v2" "v2 \<le> 255"
  shows "0 \<le> combined_byte (process_pixel v1) (process_pixel v2)"
    and "combined_byte (process_pixel v1) (process_pixel v2) \<le> 255"
proof -
  note n1 = process_pixel_nibble [OF assms(1,2)] and n2 = process_pixel_nibble [OF assms(3,4)]
  have eq: "combined_byte (process_pixel v1) (process_pixel v2) =
              process_pixel v1 * 16 + process_pixel v2"
    using n2 by (rule combined_byte_arith)
  show "0 \<le> combined_byte (process_pixel v1) (process_pixel v2)"
    using n1 n2 by (simp add: eq)
  show "combined_byte (process_pixel v1) (process_pixel v2) \<le> 255"
    using n1 n2 by (simp add: eq)
qed

lemma byte_of_range:
  assumes "is_L_image img" "size_xy img = (128, 64)" "y < 64" "x + 1 < 128"
  shows "0 \<le> byte_of img y x \<and> byte_of img y x < 256"
proof -
  have "0 \<le> intensity img x y" "intensity img x y \<le> 255"
    "0 \<le> intensity img (x + 1) y" "intensity img (x + 1) y \<le> 255"
    using assms by (simp_all add: getpixel_L)
  from combined_byte_range [OF this] show ?thesis
    by (simp add: byte_of_def)
qed

text \<open>
  Claim C1. For a 128x64 image of mode \<^verbatim>\<open>'L'\<close>, as the resampler returns it, the loops
  build the buffer row by row: for every row \<open>y\<close> from 0 to 63 and every even column
  \<open>x\<close> from 0 to 126, the byte at index \<open>y * 64 + x div 2\<close> is
  \<^verbatim>\<open>(process_pixel(pixel(x, y)) << 4) | process_pixel(pixel(x + 1, y))\<close>, with the left
  pixel in the high nibble and the right pixel in the low nibble.
\<close>

theorem packed_byte_at_row_major_index:
  assumes "is_L_image img" "size_xy img = (128, 64)" "y < 64" "x < 128" "even x"
  shows "\<exists>bitmap_data v1 v2.
           pack img = Inr bitmap_data \<and> length bitmap_data = 64 * 64 \<and>
           getpixel img (x, y) = Inr (PyInt v1) \<and>
           getpixel img (x + 1, y) = Inr (PyInt v2) \<and>
           bitmap_data ! (y * 64 + x div 2) = push_bit 4 (process_pixel v1) OR process_pixel v2 \<and>
           drop_bit 4 (bitmap_data ! (y * 64 + x div 2)) = process_pixel v1 \<and>
           bitmap_data ! (y * 64 + x div 2) AND 15 = process_pixel v2"
proof -
  from assms(4,5) have x1: "x + 1 < 128"
    by presburger
  from pack_nth [OF assms] obtain bitmap_data where
    bd: "pack img = Inr bitmap_data" "length bitmap_data = 4096"
      "bitmap_data ! (y * 64 + x div 2) = byte_of img y x"
    by blast
  let ?v1 = "intensity img x y" and ?v2 = "intensity img (x + 1) y"
  have g1: "getpixel img (x, y) = Inr (PyInt ?v1)" "0 \<le> ?v1" "?v1 \<le> 255"
    using assms by (simp_all add: getpixel_L)
  have g2: "getpixel img (x + 1, y) = Inr (PyInt ?v2)" "0 \<le> ?v2" "?v2 \<le> 255"
    using assms x1 by (simp_all add: getpixel_L)
  note n1 = process_pixel_nibble [OF g1(2,3)] and n2 = process_pixel_nibble [OF g2(2,3)]
  have "drop_bit 4 (byte_of img y x) = process_pixel ?v1"
    and "byte_of img y x AND 15 = process_pixel ?v2"
    using n1 n2 by (simp_all add: byte_of_def nibbles_of_combined_byte)
  moreover have "byte_of img y x = push_bit 4 (process_pixel ?v1) OR process_pixel ?v2"
    by (simp add: byte_of_def combined_byte_def)
  ultimately show ?thesis
    using bd g1(1) g2(1) by simp
qed

lemma gradient_image_ok: "is_L_image gradient_image \<and> size_xy gradient_image = (128, 64)"
  by (auto simp: is_L_image_def gradient_image_def)

theorem packed_byte_at_row_major_index_witness:
  "is_L_image gradient_image \<and> size_xy gradient_image = (128, 64) \<and>
   (8::nat) < 64 \<and> (30::nat) < 128 \<and> even (30::nat) \<and>
   (\<exists>bitmap_data.
      pack gradient_image = Inr bitmap_data \<and> length bitmap_data = 64 * 64 \<and>
      getpixel gradient_image (30, 8) = Inr (PyInt 47) \<and>
      getpixel gradient_image (31, 8) = Inr (PyInt 48) \<and>
      bitmap_data ! 527 = 35)"
proof -
  have g: "getpixel gradient_image (30, 8) = Inr (PyInt 47)"
    "getpixel gradient_image (30 + 1, 8) = Inr (PyInt 48)"
    by (simp_all add: getpixel_def gradient_image_def)
  have b: "push_bit 4 (process_pixel 47) OR process_pixel 48 = (35::int)"
    by (simp add: process_pixel_def)
  have i: "8 * 64 + 30 div 2 = (527::nat)"
    by simp
  from packed_byte_at_row_major_index [of gradient_image 8 30] gradient_image_ok
  obtain bitmap_data v1 v2 where
    r: "pack gradient_image = Inr bitmap_data" "length bitmap_data = 64 * 64"
      "getpixel gradient_image (30, 8) = Inr (PyInt v1)"
      "getpixel gradient_image (30 + 1, 8) = Inr (PyInt v2)"
      "bitmap_data ! (8 * 64 + 30 div 2) = push_bit 4 (process_pixel v1) OR process_pixel v2"
    by auto
  from r(3,4) g have "v1 = 47" "v2 = 48"
    by simp_all
  with r(5) b i have "bitmap_data ! 527 = 35"
    by simp
  with r(1,2) g gradient_image_ok show ?thesis
    by simp
qed

lemma pack_bytes:
  assumes "is_L_image img" "size_xy img = (128, 64)"
  shows "\<exists>bitmap_data. pack img = Inr bitmap_data \<and> length bitmap_data = 4096 \<and>
           list_all (\<lambda>b. 0 \<le> b \<and> b < 256) bitmap_data"
proof -
  let ?bd = "concat (map (\<lambda>y. map (byte_of img y) (map (\<lambda>i. 2 * i) [0..<64])) [0..<64])"
  have "pack img = Inr ?bd"
    using assms by (rule pack_rows)
  moreover have "length ?bd = 4096"
    by (simp add: length_concat comp_def sum_list_triv)
  moreover have "list_all (\<lambda>b. 0 \<le> b \<and> b < 256) ?bd"
    using byte_of_range [OF assms] by (auto simp: list_all_iff)
  ultimately show ?thesis by blast
qed

text \<open>
  Claim C10. For intensities \<open>v1\<close> and \<open>v2\<close> between 0 and 255 the combined value
  \<^verbatim>\<open>((v1 // 16) << 4) | (v2 // 16)\<close> lies between 0 and 255, so for a 128x64 image of
  mode \<^verbatim>\<open>'L'\<close> the conversion \<^verbatim>\<open>bytearray(bitmap_data)\<close> does not fail.
\<close>

theorem packed_bytes_fit_in_a_byte:
  assumes "0 \<le> v1" "v1 \<le> 255" "0 \<le> v2" "v2 \<le> 255"
    and "is_L_image img" "size_xy img = (128, 64)"
  shows "0 \<le> combined_byte (process_pixel v1) (process_pixel v2) \<and>
         combined_byte (process_pixel v1) (process_pixel v2) \<le> 255 \<and>
         (\<exists>bitmap_data. pack img = Inr bitmap_data \<and> bytearray bitmap_data = Inr bitmap_data)"
  using combined_byte_range [OF assms(1-4)] pack_bytes [OF assms(5,6)]
  by (auto simp: bytearray_def)

theorem packed_bytes_fit_in_a_byte_witness:
  "(0::int) \<le> 255 \<and> (255::int) \<le> 255 \<and> (0::int) \<le> 16 \<and> (16::int) \<le> 255 \<and>
   is_L_image gradient_image \<and> size_xy gradient_image = (128, 64) \<and>
   combined_byte (process_pixel 255) (process_pixel 16) = 241 \<and>
   (\<exists>bitmap_data. pack gradient_image = Inr bitmap_data \<and>
      bytearray bitmap_data = Inr bitmap_data)"
proof -
  have "combined_byte (process_pixel 255) (process_pixel 16) = 241"
    by (simp add: process_pixel_def combined_byte_arith)
  with packed_bytes_fit_in_a_byte [of 255 16 gradient_image] gradient_image_ok
  show ?thesis by simp
qed

subsection \<open>The pipeline up to the buffer\<close>

lemma contract_convert_L:
  assumes "pil_contract P" "convert P img ''L'' = Inr img'"
  shows "is_L_image img'" and "size_xy img' = size_xy img"
  using assms unfolding pil_contract_def by blast+

lemma contract_convert_RGBA:
  assumes "pil_contract P" "convert P img ''RGBA'' = Inr img'"
  shows "is_RGBA_image img'" and "size_xy img' = size_xy img"
  using assms unfolding pil_contract_def by blast+

lemma contract_resize:
  assumes "pil_contract P" "is_L_image img" "1 \<le> fst (size_xy img)" "1 \<le> snd (size_xy img)"
    and "1 \<le> fst sz" "1 \<le> snd sz"
  shows "\<exists>img'. resize P img sz = Inr img' \<and> is_L_image img' \<and> size_xy img' = sz"
  using assms unfolding pil_contract_def by blast

text \<open>Line 19 on the white background of line 17.\<close>

lemma composite_over_white:
  assumes "mode img1 = ''RGBA''"
  shows "Image_alpha_composite (Image_new ''RGBA'' (size_xy img1) [255, 255, 255, 255]) img1 =
           Inr \<lparr>mode = ''RGBA'', size_xy = size_xy img1,
                pixel_at = (\<lambda>xy. over [255, 255, 255, 255] (pixel_at img1 xy))\<rparr>"
  using assms by (simp add: Image_alpha_composite_def Image_new_def)

lemma handle_transparency_composite:
  assumes "mode img = ''P'' \<or> mode img = ''RGBA''" "convert P img ''RGBA'' = Inr img1"
    and "mode img1 = ''RGBA''"
  shows "handle_transparency P img =
           Inr \<lparr>mode = ''RGBA'', size_xy = size_xy img1,
                pixel_at = (\<lambda>xy. over [255, 255, 255, 255] (pixel_at img1 xy))\<rparr>"
  using assms composite_over_white [OF assms(3)]
  by (auto simp: handle_transparency_def Let_def)

lemma handle_transparency_other_modes:
  assumes "mode img \<noteq> ''P''" "mode img \<noteq> ''RGBA''"
  shows "handle_transparency P img = Inr img"
  using assms by (simp add: handle_transparency_def)

lemma handle_transparency_size:
  assumes "pil_contract P" "handle_transparency P img = Inr img1"
  shows "size_xy img1 = size_xy img"
proof (cases "mode img = ''P'' \<or> mode img = ''RGBA''")
  case True
  with assms(2) obtain c where c: "convert P img ''RGBA'' = Inr c"
    by (auto simp: handle_transparency_def split: sum.splits)
  have "mode c = ''RGBA''" "size_xy c = size_xy img"
    using contract_convert_RGBA [OF assms(1) c] by (simp_all add: is_RGBA_image_def)
  with handle_transparency_composite [OF True c] assms(2) show ?thesis
    by auto
next
  case False
  with assms(2) show ?thesis by (simp add: handle_transparency_def)
qed

lemma load_bitmap_bytes:
  assumes "pil_contract P" "Image_open P image_path = Inr img"
    and "1 \<le> fst (size_xy img)" "1 \<le> snd (size_xy img)"
    and "handle_transparency P img = Inr img1" "convert P img1 ''L'' = Inr img2"
  shows "\<exists>bitmap_data. load_bitmap P image_path = Inr bitmap_data \<and>
           length bitmap_data = 4096 \<and> list_all (\<lambda>b. 0 \<le> b \<and> b < 256) bitmap_data"
proof -
  have s1: "size_xy img1 = size_xy img"
    using assms(1,5) by (rule handle_transparency_size)
  have g: "is_L_image img2" "size_xy img2 = size_xy img"
    using contract_convert_L [OF assms(1,6)] s1 by simp_all
  from contract_resize [OF assms(1) g(1), of "(128, 64)"] g(2) assms(3,4)
  obtain img3 where r: "resize P img2 (128, 64) = Inr img3" "is_L_image img3"
    "size_xy img3 = (128, 64)"
    by auto
  from pack_bytes [OF r(2,3)] show ?thesis
    using assms(2,5,6) r(1) by (simp add: load_bitmap_def)
qed

lemma load_bitmap_length: "load_bitmap P image_path = Inr bitmap_data \<Longrightarrow> length bitmap_data = 4096"
  by (auto simp: load_bitmap_def split: sum.splits dest: pack_length)

text \<open>
  Claim C2, as amended. For every source image that \<open>Image_open\<close> decodes, of any size
  from 1x1, for which the transparency handling of lines 13 to 19 and \<^verbatim>\<open>convert('L')\<close>
  of line 22 raise no exception, the pipeline of lines 11 to 45 returns a buffer of
  exactly 4096 bytes.
\<close>

theorem load_bitmap_length_4096:
  assumes "pil_contract P" "Image_open P image_path = Inr img"
    and "1 \<le> fst (size_xy img)" "1 \<le> snd (size_xy img)"
    and "handle_transparency P img = Inr img1" "convert P img1 ''L'' = Inr img2"
  shows "\<exists>bitmap_data. load_bitmap P image_path = Inr bitmap_data \<and> length bitmap_data = 4096"
  using load_bitmap_bytes [OF assms] by blast

lemma luma_to_rgba_shape: "\<exists>r g b a. to_rgba bands = [r, g, b, a]"
  by (cases bands rule: to_rgba.cases) simp_all

lemma clamp8_range: "0 \<le> clamp8 v \<and> clamp8 v \<le> 255"
  by (simp add: clamp8_def)

lemma nearest_index:
  assumes "x < n" "1 \<le> (w::nat)"
  shows "x * w div n < w"
proof -
  from assms have "x * w < w * n"
    by (simp add: mult.commute)
  then show ?thesis
    by (rule less_mult_imp_div_less)
qed

lemma example_pil_contract: "pil_contract (example_pil decode)"
proof -
  have rgba: "is_RGBA_image \<lparr>mode = ''RGBA'', size_xy = s,
                pixel_at = (\<lambda>xy. map clamp8 (to_rgba (f xy)))\<rparr>" for s f
  proof -
    have "case map clamp8 (to_rgba bands) of
            [r, g, b, a] \<Rightarrow> list_all (\<lambda>v. 0 \<le> v \<and> v \<le> 255) [r, g, b, a] | _ \<Rightarrow> False" for bands
      using luma_to_rgba_shape [of bands] by (auto simp: clamp8_range)
    then show ?thesis by (simp add: is_RGBA_image_def)
  qed
  have resize: "is_L_image \<lparr>mode = mode img, size_xy = sz,
         pixel_at = (\<lambda>(x, y). pixel_at img (x * fst (size_xy img) div fst sz,
                                              y * snd (size_xy img) div snd sz))\<rparr>"
    if "is_L_image img" "1 \<le> fst (size_xy img)" "1 \<le> snd (size_xy img)" for img sz
    using that by (auto simp: is_L_image_def nearest_index)
  have c1: "is_L_image img' \<and> size_xy img' = size_xy img"
    if "convert (example_pil decode) img ''L'' = Inr img'" for img img'
    using that by (auto simp: example_pil_def is_L_image_def clamp8_range split: if_splits)
  have c2: "is_RGBA_image img' \<and> size_xy img' = size_xy img"
    if "convert (example_pil decode) img ''RGBA'' = Inr img'" for img img'
    using that rgba [of "size_xy img" "pixel_at img"]
    by (auto simp: example_pil_def split: if_splits)
  have c3: "\<exists>img'. resize (example_pil decode) img sz = Inr img' \<and> is_L_image img' \<and>
              size_xy img' = sz"
    if "is_L_image img" "1 \<le> fst (size_xy img)" "1 \<le> snd (size_xy img)"
      "1 \<le> fst sz" "1 \<le> snd sz" for img sz
    using that resize [OF that(1-3), of sz] by (simp add: example_pil_def)
  show ?thesis
    unfolding pil_contract_def using c1 c2 c3 by blast
qed

lemma example_photo_steps:
  "Image_open (example_pil example_files) ''photo.png'' = Inr rgba_pixel_image"
  "1 \<le> fst (size_xy rgba_pixel_image)" "1 \<le> snd (size_xy rgba_pixel_image)"
  "handle_transparency (example_pil example_files) rgba_pixel_image = Inr white_pixel_image"
  "convert (example_pil example_files) white_pixel_image ''L'' = Inr white_gray_image"
  by (simp_all add: example_pil_def example_files_def rgba_pixel_image_def
      white_pixel_image_def white_gray_image_def handle_transparency_def
      Image_alpha_composite_def Image_new_def clamp8_def blend_def)

theorem load_bitmap_length_4096_witness:
  "pil_contract (example_pil example_files) \<and>
   Image_open (example_pil example_files) ''photo.png'' = Inr rgba_pixel_image \<and>
   1 \<le> fst (size_xy rgba_pixel_image) \<and> 1 \<le> snd (size_xy rgba_pixel_image) \<and>
   handle_transparency (example_pil example_files) rgba_pixel_image = Inr white_pixel_image \<and>
   convert (example_pil example_files) white_pixel_image ''L'' = Inr white_gray_image \<and>
   (\<exists>bitmap_data. load_bitmap (example_pil example_files) ''photo.png'' = Inr bitmap_data \<and>
      length bitmap_data = 4096)"
  using load_bitmap_length_4096 [OF example_pil_contract example_photo_steps]
    example_pil_contract example_photo_steps
  by simp

text \<open>
  Claim C2 as stated fails for a mode that has no conversion to \<^verbatim>\<open>'L'\<close>: a decoded 1x1
  image of mode \<^verbatim>\<open>'LAB'\<close> passes lines 13 to 19 unchanged, \<^verbatim>\<open>convert('L')\<close> raises
  ValueError at line 22, and the pipeline returns no buffer.
\<close>

theorem lab_image_has_no_buffer:
  "Image_open (example_pil example_files) ''lab.tif'' = Inr lab_pixel_image \<and>
   size_xy lab_pixel_image = (1, 1) \<and>
   handle_transparency (example_pil example_files) lab_pixel_image = Inr lab_pixel_image \<and>
   convert (example_pil example_files) lab_pixel_image ''L'' = Inl ValueError \<and>
   load_bitmap (example_pil example_files) ''lab.tif'' = Inl ValueError"
  by (simp add: load_bitmap_def handle_transparency_def example_pil_def example_files_def
      lab_pixel_image_def)

subsection \<open>Transparency\<close>



text \<open>
  What lines 13 to 19 do in general: an image of any other mode is handed on as it is,
  and an image of mode \<^verbatim>\<open>'P'\<close> or \<^verbatim>\<open>'RGBA'\<close> is replaced by its RGBA form composited
  over white, in which every alpha is 255.
\<close>

lemma transparent_pixel_in_pipeline:
  assumes "mode img = ''P'' \<or> mode img = ''RGBA''" "convert P img ''RGBA'' = Inr img1"
    and "mode img1 = ''RGBA''" "pixel_at img1 (x, y) = [r, g, b, 0]"
  shows "\<exists>img2. handle_transparency P img = Inr img2 \<and>
           pixel_at img2 (x, y) = [255, 255, 255, 255]"
  using handle_transparency_composite [OF assms(1-3)] assms(4)
  by (simp add: blend_def)

lemma p_and_rgba_images_flattened:
  assumes "mode img = ''P'' \<or> mode img = ''RGBA''" "pil_contract P"
    and "convert P img ''RGBA'' = Inr img1"
  shows "\<exists>img2. handle_transparency P img = Inr img2 \<and> mode img2 = ''RGBA'' \<and>
           size_xy img2 = size_xy img \<and> no_transparency img2 \<and>
           (\<forall>xy. pixel_at img2 xy = over [255, 255, 255, 255] (pixel_at img1 xy))"
proof -
  have c: "is_RGBA_image img1" "size_xy img1 = size_xy img"
    using contract_convert_RGBA [OF assms(2,3)] by simp_all
  then have m: "mode img1 = ''RGBA''"
    by (simp add: is_RGBA_image_def)
  let ?n = "\<lparr>mode = ''RGBA'', size_xy = size_xy img1,
             pixel_at = (\<lambda>xy. over [255, 255, 255, 255] (pixel_at img1 xy))\<rparr>"
  have "alpha_of ''RGBA'' (over [255, 255, 255, 255] (pixel_at img1 (x, y))) = Some 255"
    if "x < fst (size_xy img1)" "y < snd (size_xy img1)" for x y
  proof -
    from c(1) that have
      "case pixel_at img1 (x, y) of
         [r, g, b, a] \<Rightarrow> list_all (\<lambda>v. 0 \<le> v \<and> v \<le> 255) [r, g, b, a] | _ \<Rightarrow> False"
      by (simp add: is_RGBA_image_def)
    then obtain r g b a where "pixel_at img1 (x, y) = [r, g, b, a]"
      by (auto split: list.splits)
    then show ?thesis
      by (simp add: alpha_of_def)
  qed
  then have "no_transparency ?n"
    by (simp add: no_transparency_def)
  with handle_transparency_composite [OF assms(1,3) m] c(2) show ?thesis
    by simp
qed

text \<open>
  Claim C8 at a grayscale image with alpha: the 1x1 image of mode \<^verbatim>\<open>'LA'\<close> whose pixel
  has alpha 0 is not composited over white. The test of line 14 names only the modes
  \<^verbatim>\<open>'P'\<close> and \<^verbatim>\<open>'RGBA'\<close>, so lines 13 to 19 hand the image on unchanged and it still
  has its transparent pixel.
\<close>

theorem la_image_keeps_transparency:
  "mode la_pixel_image = ''LA'' \<and>
   alpha_of (mode la_pixel_image) (pixel_at la_pixel_image (0, 0)) = Some 0 \<and>
   handle_transparency (example_pil example_files) la_pixel_image = Inr la_pixel_image"
  by (simp add: handle_transparency_def la_pixel_image_def alpha_of_def)

lemma la_pixel_image_transparent: "\<not> no_transparency la_pixel_image"
  by (simp add: la_pixel_image_def no_transparency_def alpha_of_def)

subsection \<open>Errors and the output file\<close>

text \<open>
  Claim C6, as amended. When \<^verbatim>\<open>Image.open\<close> raises, the function has no handler: the
  same exception leaves \<open>convert_image_to_4bit_grayscale\<close>, nothing is printed and no
  file is written.
\<close>

theorem decode_failure_propagates:
  assumes "Image_open P image_path = Inl e"
  shows "convert_image_to_4bit_grayscale P image_path output_path w = (Inl e, w)"
  using assms by (simp add: convert_image_to_4bit_grayscale_def load_bitmap_def)

theorem decode_failure_propagates_witness:
  "Image_open (example_pil example_files) ''notes.txt'' = Inl UnidentifiedImageError \<and>
   convert_image_to_4bit_grayscale (example_pil example_files) ''notes.txt'' None empty_world =
     (Inl UnidentifiedImageError, empty_world)"
proof -
  have o: "Image_open (example_pil example_files) ''notes.txt'' = Inl UnidentifiedImageError"
    by (simp add: example_pil_def example_files_def)
  from decode_failure_propagates [OF o] o show ?thesis
    by simp
qed

text \<open>
  Claim C6 as stated fails: for a file that is not an image the function does not return
  with a reported error of its own, the exception of the decoder escapes from it.
\<close>

theorem decode_failure_is_not_handled:
  "fst (convert_image_to_4bit_grayscale (example_pil example_files) ''notes.txt'' None empty_world) =
     Inl UnidentifiedImageError \<and>
   stdout (snd (convert_image_to_4bit_grayscale (example_pil example_files) ''notes.txt'' None
     empty_world)) = []"
  by (simp add: convert_image_to_4bit_grayscale_def load_bitmap_def example_pil_def
      example_files_def empty_world_def)

text \<open>
  Claim C7. Whenever the length check of line 48 fails, lines 47 to 61 print the error
  message and return without writing: the files are as they were.
\<close>

theorem size_mismatch_writes_nothing:
  assumes "length bitmap_data \<noteq> 4096"
  shows "fst (save_bitmap bitmap_data image_path output_path w) = Inr () \<and>
         files (snd (save_bitmap bitmap_data image_path output_path w)) = files w \<and>
         stdout (snd (save_bitmap bitmap_data image_path output_path w)) =
           stdout w @ [''Error: Expected 4096 bytes, got '' @ str_nat (length bitmap_data) @
             '' bytes.'']"
  using assms by (simp add: save_bitmap_def)

theorem size_mismatch_writes_nothing_witness:
  "length [0, 17, 255 :: int] \<noteq> 4096 \<and>
   fst (save_bitmap [0, 17, 255] ''photo.png'' None empty_world) = Inr () \<and>
   files (snd (save_bitmap [0, 17, 255] ''photo.png'' None empty_world)) = files empty_world \<and>
   stdout (snd (save_bitmap [0, 17, 255] ''photo.png'' None empty_world)) =
     [''Error: Expected 4096 bytes, got 3 bytes.'']"
proof -
  have l: "length [0, 17, 255 :: int] \<noteq> 4096"
    by simp
  from size_mismatch_writes_nothing [OF l, of "''photo.png''" None empty_world] l
  show ?thesis by (simp add: empty_world_def)
qed

lemma save_bitmap_writes:
  assumes "length bitmap_data = 4096" "list_all (\<lambda>b. 0 \<le> b \<and> b < 256) bitmap_data"
    and "output_path' =
           (case output_path of None \<Rightarrow> fst (splitext image_path) @ ''-4bit.bin'' | Some p \<Rightarrow> p)"
    and "creatable w output_path'"
  shows "save_bitmap bitmap_data image_path output_path w =
           (Inr (), w\<lparr>files := (files w)(output_path' \<mapsto> bitmap_data),
                       stdout := stdout w @
                         [''Image successfully converted and saved to '' @ output_path']\<rparr>)"
  using assms by (cases output_path) (simp_all add: save_bitmap_def bytearray_def Let_def)

lemma splitext_append: "fst (splitext p) @ snd (splitext p) = p"
  by (simp add: splitext_def Let_def)

lemma splitext_photo: "splitext ''photo.png'' = (''photo'', ''.png'')"
  by (simp add: splitext_def rfind_def)

text \<open>
  Claim C9. A successful conversion writes the buffer to the explicit output path when one
  is given, and otherwise to the input path with its extension stripped and
  \<^verbatim>\<open>-4bit.bin\<close> appended; for \<^verbatim>\<open>photo.png\<close> that is \<^verbatim>\<open>photo-4bit.bin\<close>.
\<close>

theorem output_path_default_or_verbatim:
  assumes "pil_contract P" "Image_open P image_path = Inr img"
    and "1 \<le> fst (size_xy img)" "1 \<le> snd (size_xy img)"
    and "handle_transparency P img = Inr img1" "convert P img1 ''L'' = Inr img2"
    and "output_path' =
           (case output_path of None \<Rightarrow> fst (splitext image_path) @ ''-4bit.bin'' | Some p \<Rightarrow> p)"
    and "creatable w output_path'"
  shows "\<exists>bitmap_data.
           load_bitmap P image_path = Inr bitmap_data \<and>
           convert_image_to_4bit_grayscale P image_path output_path w =
             (Inr (), w\<lparr>files := (files w)(output_path' \<mapsto> bitmap_data),
                         stdout := stdout w @
                           [''Image successfully converted and saved to '' @ output_path']\<rparr>)"
proof -
  from load_bitmap_bytes [OF assms(1-6)] obtain bitmap_data where
    b: "load_bitmap P image_path = Inr bitmap_data" "length bitmap_data = 4096"
      "list_all (\<lambda>b. 0 \<le> b \<and> b < 256) bitmap_data"
    by blast
  from save_bitmap_writes [OF b(2,3) assms(7,8)] b(1) show ?thesis
    by (simp add: convert_image_to_4bit_grayscale_def)
qed

theorem output_path_default_or_verbatim_witness:
  "pil_contract (example_pil example_files) \<and>
   Image_open (example_pil example_files) ''photo.png'' = Inr rgba_pixel_image \<and>
   1 \<le> fst (size_xy rgba_pixel_image) \<and> 1 \<le> snd (size_xy rgba_pixel_image) \<and>
   handle_transparency (example_pil example_files) rgba_pixel_image = Inr white_pixel_image \<and>
   convert (example_pil example_files) white_pixel_image ''L'' = Inr white_gray_image \<and>
   ''photo-4bit.bin'' =
     (case None of None \<Rightarrow> fst (splitext ''photo.png'') @ ''-4bit.bin'' | Some p \<Rightarrow> p) \<and>
   creatable empty_world ''photo-4bit.bin'' \<and>
   (\<exists>bitmap_data.
      load_bitmap (example_pil example_files) ''photo.png'' = Inr bitmap_data \<and>
      convert_image_to_4bit_grayscale (example_pil example_files) ''photo.png'' None empty_world =
        (Inr (), empty_world\<lparr>files := (files empty_world)(''photo-4bit.bin'' \<mapsto> bitmap_data),
           stdout := stdout empty_world @
             [''Image successfully converted and saved to '' @ ''photo-4bit.bin'']\<rparr>))"
proof -
  have d: "''photo-4bit.bin'' =
     (case None of None \<Rightarrow> fst (splitext ''photo.png'') @ ''-4bit.bin'' | Some p \<Rightarrow> p)"
    by (simp add: splitext_photo)
  have c: "creatable empty_world ''photo-4bit.bin''"
    by (simp add: empty_world_def)
  from output_path_default_or_verbatim [OF example_pil_contract example_photo_steps d c]
    example_pil_contract example_photo_steps d c
  show ?thesis by blast
qed

end
